theory Spec2Isabelle
  imports Complex_Main
begin

section \<open>NumPy arrays as lists\<close>

text \<open>
  The memristive reservoir of \<^verbatim>\<open>conn2res/reservoir.py\<close> works on NumPy arrays.
  A one-dimensional array is a list of reals, a two-dimensional array of shape
  \<open>(r, c)\<close> is a list of \<open>r\<close> rows of length \<open>c\<close>. Integer and boolean arrays are
  embedded in the reals (\<open>0\<close> and \<open>1\<close> for booleans); floating-point numbers are
  idealised as reals. An array without rows is \<open>[]\<close>, of shape \<open>(0, 0)\<close>.
  Every exception of the source is a value of \<open>error\<close>.
\<close>

type_synonym vec = "real list"
type_synonym matrix = "real list list"

datatype error =
  ValueError | IndexError | TypeError | KeyError | AxisError | LinAlgError | MaskError

definition nrows :: "'a list list \<Rightarrow> nat" where
  "nrows a = length a"

definition ncols :: "'a list list \<Rightarrow> nat" where
  "ncols a = (case a of [] \<Rightarrow> 0 | row # _ \<Rightarrow> length row)"

definition is_mat :: "nat \<Rightarrow> nat \<Rightarrow> 'a list list \<Rightarrow> bool" where
  "is_mat r c a = (length a = r \<and> list_all (\<lambda>row. length row = c) a)"

text \<open>The array of shape \<open>(r, c)\<close> whose entry \<open>(i, j)\<close> is \<open>f i j\<close>.\<close>

definition mk :: "nat \<Rightarrow> nat \<Rightarrow> (nat \<Rightarrow> nat \<Rightarrow> 'a) \<Rightarrow> 'a list list" where
  "mk r c f = map (\<lambda>i. map (\<lambda>j. f i j) [0..<c]) [0..<r]"

text \<open>
  Broadcasting of two shapes along one axis: equal sizes, or one of them is 1.
  A read from a broadcast array repeats its only row (column).
\<close>

definition broadcast_dim :: "nat \<Rightarrow> nat \<Rightarrow> nat option" where
  "broadcast_dim a b =
     (if a = b then Some a else if a = 1 then Some b else if b = 1 then Some a else None)"

definition at2 :: "'a list list \<Rightarrow> nat \<Rightarrow> nat \<Rightarrow> 'a" where
  "at2 a i j = a ! (if nrows a = 1 then 0 else i) ! (if ncols a = 1 then 0 else j)"

text \<open>An elementwise binary operation (\<open>a + b\<close>, \<open>a * b\<close>, \<open>np.isclose(a, b)\<close>, ...).\<close>

definition ew2 :: "('a \<Rightarrow> 'b \<Rightarrow> 'c) \<Rightarrow> 'a list list \<Rightarrow> 'b list list \<Rightarrow> error + 'c list list" where
  "ew2 f a b =
     (case broadcast_dim (nrows a) (nrows b) of
        None \<Rightarrow> Inl ValueError
      | Some r \<Rightarrow>
          (case broadcast_dim (ncols a) (ncols b) of
             None \<Rightarrow> Inl ValueError
           | Some c \<Rightarrow> Inr (mk r c (\<lambda>i j. f (at2 a i j) (at2 b i j)))))"

text \<open>\<open>a.T\<close>\<close>

definition T :: "'a list list \<Rightarrow> 'a list list" where
  "T a = mk (ncols a) (nrows a) (\<lambda>i j. a ! j ! i)"

text \<open>\<open>a.astype(bool).astype(int)\<close>: every nonzero entry becomes 1.\<close>

definition astype_bool_int :: "matrix \<Rightarrow> matrix" where
  "astype_bool_int a = map (map (\<lambda>x. if x \<noteq> 0 then 1 else 0)) a"

text \<open>\<open>np.fill_diagonal(a, v)\<close> for a scalar \<open>v\<close>: the entries \<open>(k, k)\<close> that exist.\<close>

definition fill_diagonal :: "matrix \<Rightarrow> real \<Rightarrow> matrix" where
  "fill_diagonal a v = mk (nrows a) (ncols a) (\<lambda>i j. if i = j then v else a ! i ! j)"

definition zeros_like :: "matrix \<Rightarrow> matrix" where
  "zeros_like a = mk (nrows a) (ncols a) (\<lambda>i j. 0)"

text \<open>
  \<open>np.allclose(a, b, rtol, atol)\<close>: every pair of the broadcast arrays satisfies
  \<open>|x - y| <= atol + rtol * |y|\<close>; NumPy's default \<open>rtol\<close> is \<open>1e-5\<close>.
\<close>

definition isclose :: "real \<Rightarrow> real \<Rightarrow> real \<Rightarrow> real \<Rightarrow> bool" where
  "isclose rtol atol x y = (\<bar>x - y\<bar> \<le> atol + rtol * \<bar>y\<bar>)"

definition allclose :: "matrix \<Rightarrow> matrix \<Rightarrow> real \<Rightarrow> real \<Rightarrow> error + bool" where
  "allclose a b rtol atol =
     (case ew2 (isclose rtol atol) a b of
        Inl e \<Rightarrow> Inl e
      | Inr c \<Rightarrow> Inr (list_all (list_all (\<lambda>x. x)) c))"

text \<open>\<open>np.triu_indices_from(a, k)\<close>: the pairs \<open>(i, j)\<close> with \<open>j >= i + k\<close>, row by row.\<close>

definition triu_indices_from :: "matrix \<Rightarrow> nat \<Rightarrow> (nat \<times> nat) list" where
  "triu_indices_from a k =
     concat (map (\<lambda>i. map (\<lambda>j. (i, j)) (filter (\<lambda>j. i + k \<le> j) [0..<ncols a])) [0..<nrows a])"

text \<open>\<open>a[idx]\<close> and \<open>a[idx] = vals\<close> for a list of index pairs.\<close>

definition in_bounds :: "'a list list \<Rightarrow> (nat \<times> nat) list \<Rightarrow> bool" where
  "in_bounds a idx = list_all (\<lambda>(i, j). i < nrows a \<and> j < ncols a) idx"

definition take_idx :: "matrix \<Rightarrow> (nat \<times> nat) list \<Rightarrow> error + vec" where
  "take_idx a idx =
     (if in_bounds a idx then Inr (map (\<lambda>(i, j). a ! i ! j) idx) else Inl IndexError)"

definition put_idx :: "matrix \<Rightarrow> (nat \<times> nat) list \<Rightarrow> vec \<Rightarrow> error + matrix" where
  "put_idx a idx vals =
     (if \<not> in_bounds a idx then Inl IndexError
      else if length vals \<noteq> length idx \<and> length vals \<noteq> 1 then Inl ValueError
      else
        (let vs = (if length vals = length idx then vals else replicate (length idx) (hd vals));
             m = map_of (rev (zip idx vs))
         in Inr (mk (nrows a) (ncols a)
                   (\<lambda>i j. case m (i, j) of None \<Rightarrow> a ! i ! j | Some v \<Rightarrow> v))))"

text \<open>\<open>np.tril(a, k)\<close> keeps \<open>j <= i + k\<close>, \<open>np.triu(a, k)\<close> keeps \<open>j >= i + k\<close>.\<close>

definition tril :: "matrix \<Rightarrow> int \<Rightarrow> matrix" where
  "tril a k = mk (nrows a) (ncols a) (\<lambda>i j. if int j \<le> int i + k then a ! i ! j else 0)"

definition triu :: "matrix \<Rightarrow> int \<Rightarrow> matrix" where
  "triu a k = mk (nrows a) (ncols a) (\<lambda>i j. if int i + k \<le> int j then a ! i ! j else 0)"

definition logical_or :: "real \<Rightarrow> real \<Rightarrow> real" where
  "logical_or x y = (if x \<noteq> 0 \<or> y \<noteq> 0 then 1 else 0)"

section \<open>Module-level helpers of reservoir.py\<close>

text \<open>
  \<^verbatim>\<open>
  def check_symmetric(a, tol=1e-16):
      return np.allclose(a, a.T, atol=tol)

  def make_symmetric(a, copy_lower=True):
      if copy_lower:
          return np.tril(a,-1) + np.tril(a,-1).T
      else:
          return np.triu(a,1) + np.triu(a,1).T

  def check_square(a):
      s = a.shape
      if s[0] == s[1]: return True
      else: return False
  \<close>
\<close>

definition check_symmetric :: "matrix \<Rightarrow> real \<Rightarrow> error + bool" where
  "check_symmetric a tol = allclose a (T a) (1 / 10 ^ 5) tol"

definition make_symmetric :: "matrix \<Rightarrow> bool \<Rightarrow> error + matrix" where
  "make_symmetric a copy_lower =
     (if copy_lower then ew2 (+) (tril a (- 1)) (T (tril a (- 1)))
      else ew2 (+) (triu a 1) (T (triu a 1)))"

definition check_square :: "matrix \<Rightarrow> bool" where
  "check_square a = (if nrows a = ncols a then True else False)"

section \<open>MemristiveReservoir: connectivity\<close>

text \<open>
  \<^verbatim>\<open>
  def setW(self, w):
      w = w.astype(bool).astype(int)
      np.fill_diagonal(w, 0)
      if not check_symmetric(w):
          upper_diag = w[np.triu_indices_from(w, 1)]
          lower_diag = w.T[np.triu_indices_from(w, 1)]
          W = np.zeros_like(w).astype(int)
          W[np.triu_indices_from(w,1)] = np.logical_or(upper_diag, lower_diag).astype(int)
          return make_symmetric(W, copy_lower=False)
      else:
          return w
  \<close>
  \<open>setW\<close> never calls \<open>check_square\<close>; what happens to a non-square input is
  decided by the NumPy operations themselves.
\<close>

definition setW :: "matrix \<Rightarrow> error + matrix" where
  "setW w0 =
     (let w = fill_diagonal (astype_bool_int w0) 0 in
      case check_symmetric w (1 / 10 ^ 16) of
        Inl e \<Rightarrow> Inl e
      | Inr True \<Rightarrow> Inr w
      | Inr False \<Rightarrow>
          (case take_idx w (triu_indices_from w 1) of
             Inl e \<Rightarrow> Inl e
           | Inr upper_diag \<Rightarrow>
               (case take_idx (T w) (triu_indices_from w 1) of
                  Inl e \<Rightarrow> Inl e
                | Inr lower_diag \<Rightarrow>
                    (case put_idx (zeros_like w) (triu_indices_from w 1)
                            (map2 logical_or upper_diag lower_diag) of
                       Inl e \<Rightarrow> Inl e
                     | Inr W \<Rightarrow> make_symmetric W False))))"


text \<open>Sequencing of computations that may raise.\<close>

definition then_do :: "error + 'a \<Rightarrow> ('a \<Rightarrow> error + 'b) \<Rightarrow> error + 'b" where
  "then_do x f = (case x of Inl e \<Rightarrow> Inl e | Inr v \<Rightarrow> f v)"

text \<open>\<open>np.where(cond)\<close>: the index pairs of the entries that satisfy \<open>cond\<close>, row by row.\<close>

definition np_where :: "('a \<Rightarrow> bool) \<Rightarrow> 'a list list \<Rightarrow> (nat \<times> nat) list" where
  "np_where P a =
     concat (map (\<lambda>i. map (\<lambda>j. (i, j)) (filter (\<lambda>j. P (a ! i ! j)) [0..<ncols a])) [0..<nrows a])"

text \<open>
  The reservoir object. \<open>self._W\<close>, \<open>self._I\<close>, ... are the fields \<open>self_W\<close>, \<open>self_I\<close>, ...;
  node indices are natural numbers. \<open>self._G\<close> is \<open>None\<close> until a subclass sets it.
  \<^verbatim>\<open>
  def __init__(self, w, i_nodes, e_nodes, gr_nodes, *args, **kwargs):
      super().__init__(*args, **kwargs)
      self._W  = self.setW(w)
      self._I  = np.asarray(i_nodes)
      self._E  = np.asarray(e_nodes)
      self._GR = np.asarray(gr_nodes)
      self._n_internal_nodes = len(self._I)
      self._n_external_nodes = len(self._E)
      self._n_grounded_nodes = len(self._GR)
      self._n_nodes = len(self._W)
      self._G = None
  \<close>
\<close>

record reservoir =
  self_W :: matrix
  self_I :: "nat list"
  self_E :: "nat list"
  self_GR :: "nat list"
  n_internal_nodes :: nat
  n_external_nodes :: nat
  n_grounded_nodes :: nat
  n_nodes :: nat
  self_G :: "matrix option"

definition MemristiveReservoir_init ::
    "matrix \<Rightarrow> nat list \<Rightarrow> nat list \<Rightarrow> nat list \<Rightarrow> error + reservoir" where
  "MemristiveReservoir_init w i_nodes e_nodes gr_nodes =
     (case setW w of
        Inl e \<Rightarrow> Inl e
      | Inr W \<Rightarrow>
          Inr \<lparr>self_W = W, self_I = i_nodes, self_E = e_nodes, self_GR = gr_nodes,
               n_internal_nodes = length i_nodes,
               n_external_nodes = length e_nodes,
               n_grounded_nodes = length gr_nodes,
               n_nodes = length W,
               self_G = None\<rparr>)"

section \<open>Masking\<close>

text \<open>
  \<^verbatim>\<open>
  def mask(reservoir, a):
      a[np.where(reservoir._W == 0)] = 0
      return a
  \<close>
  \<open>mask\<close> receives a reference to an array object and writes into that object. The
  store keeps the content of every array object that is passed to \<open>mask\<close>: \<open>cells h p\<close>
  is the content of the object at address \<open>p\<close>, and \<open>next_free h\<close> is the first address
  not yet in use. \<open>new_array h a\<close> puts a newly created array with content \<open>a\<close> at the
  next free address. \<open>masked W a\<close> is what the assignment
  \<open>a[np.where(W == 0)] = 0\<close> makes of the content \<open>a\<close>; it raises IndexError when an
  index of \<open>W\<close> does not exist in \<open>a\<close>. \<open>mask\<close> performs the assignment on the object at
  the address it was given and returns that address.
\<close>

definition masked :: "matrix \<Rightarrow> matrix \<Rightarrow> error + matrix" where
  "masked W a = put_idx a (np_where (\<lambda>x. x = 0) W) [0]"




section \<open>Property matrices\<close>



section \<open>Kirchhoff solver\<close>

text \<open>
  \<open>np.sum(G, axis=1)\<close>; \<open>np.fill_diagonal(N, vals)\<close> for an array of values, which
  NumPy repeats as often as the diagonal needs; \<open>A[np.ix_(rows, cols)]\<close>; and
  \<open>np.dot(M, v)\<close> for a matrix with \<open>c\<close> columns and a vector (a matrix without rows
  does not record its number of columns, so the caller passes it).
\<close>

definition np_sum_axis1 :: "matrix \<Rightarrow> vec" where
  "np_sum_axis1 a = map sum_list a"

definition fill_diagonal_vals :: "matrix \<Rightarrow> vec \<Rightarrow> error + matrix" where
  "fill_diagonal_vals a vals =
     (if vals = [] then (if nrows a = 0 \<or> ncols a = 0 then Inr a else Inl ValueError)
      else Inr (mk (nrows a) (ncols a)
                  (\<lambda>i j. if i = j then vals ! (i mod length vals) else a ! i ! j)))"

definition take_ix :: "matrix \<Rightarrow> nat list \<Rightarrow> nat list \<Rightarrow> error + matrix" where
  "take_ix a rows cols =
     (if list_all (\<lambda>i. i < nrows a) rows \<and> list_all (\<lambda>j. j < ncols a) cols
      then Inr (map (\<lambda>i. map (\<lambda>j. a ! i ! j) cols) rows)
      else Inl IndexError)"

definition dotv :: "vec \<Rightarrow> vec \<Rightarrow> real" where
  "dotv x y = sum_list (map2 (*) x y)"

definition np_dot_mv :: "nat \<Rightarrow> matrix \<Rightarrow> vec \<Rightarrow> error + vec" where
  "np_dot_mv c M v =
     (if c = length v \<and> list_all (\<lambda>row. length row = c) M
      then Inr (map (\<lambda>row. dotv row v) M)
      else Inl ValueError)"

text \<open>
  \<^verbatim>\<open>
  def solveV_I(self, V_E, V_GR=None, G=None, **kwargs):
      if V_GR is None: V_GR = np.zeros((self._n_grounded_nodes))
      if G is None: G = self._G
      N = np.zeros((self._n_nodes, self._n_nodes))
      np.fill_diagonal(N, np.sum(G, axis=1))
      A = N - G
      A_II = A[np.ix_(self._I, self._I)]
      A_II_inv = inv(A_II)
      H_IE  = np.dot(G[np.ix_(self._I, self._E)], V_E)
      H_IGR = np.dot(G[np.ix_(self._I, self._GR)], V_GR)
      H_I = H_IE + H_IGR
      return np.dot(A_II_inv, H_I)
  \<close>
  \<open>inv\<close> is \<open>numpy.linalg.inv\<close>, a library routine outside the repository: the model
  takes it as the argument \<open>linalg_inv\<close>. With \<open>G = None\<close> and \<open>self._G = None\<close> the sum
  over axis 1 of \<open>None\<close> raises AxisError.
\<close>

definition solveV_I ::
    "(matrix \<Rightarrow> error + matrix) \<Rightarrow> 'a reservoir_scheme \<Rightarrow> vec \<Rightarrow> vec option \<Rightarrow> matrix option
      \<Rightarrow> error + vec" where
  "solveV_I linalg_inv r V_E V_GR G =
     (let V_GR = (case V_GR of None \<Rightarrow> replicate (n_grounded_nodes r) 0 | Some v \<Rightarrow> v) in
      case (case G of None \<Rightarrow> self_G r | Some g \<Rightarrow> Some g) of
        None \<Rightarrow> Inl AxisError
      | Some G \<Rightarrow>
          then_do (fill_diagonal_vals (mk (n_nodes r) (n_nodes r) (\<lambda>i j. 0)) (np_sum_axis1 G))
            (\<lambda>N. then_do (ew2 (-) N G)
            (\<lambda>A. then_do (take_ix A (self_I r) (self_I r))
            (\<lambda>A_II. then_do (linalg_inv A_II)
            (\<lambda>A_II_inv. then_do (take_ix G (self_I r) (self_E r))
            (\<lambda>G_IE. then_do (np_dot_mv (length (self_E r)) G_IE V_E)
            (\<lambda>H_IE. then_do (take_ix G (self_I r) (self_GR r))
            (\<lambda>G_IGR. then_do (np_dot_mv (length (self_GR r)) G_IGR V_GR)
            (\<lambda>H_IGR. np_dot_mv (length (self_I r)) A_II_inv (map2 (+) H_IE H_IGR))))))))))"

section \<open>Voltage across the memristors\<close>




section \<open>MSSNetwork\<close>






record mss = reservoir +
  vA :: matrix
  vB :: matrix
  tc :: matrix
  NMSS :: matrix
  Woff :: matrix
  Won :: matrix
  self_Ga :: matrix
  self_Gb :: matrix
  self_Nb :: matrix

text \<open>
  \<open>Nb * (self._Gb - self._Ga) + self.NMSS * self._Ga\<close>, the expression of the
  constructor and of the getter and the setter of \<open>G\<close>.
\<close>

definition conductance :: "mss \<Rightarrow> matrix \<Rightarrow> error + matrix" where
  "conductance r Nb =
     then_do (ew2 (-) (self_Gb r) (self_Ga r))
       (\<lambda>d. then_do (ew2 (*) Nb d)
       (\<lambda>x. then_do (ew2 (*) (NMSS r) (self_Ga r))
       (\<lambda>y. ew2 (+) x y)))"


text \<open>
  \<^verbatim>\<open>
  @Nb.setter
  def Nb(self, value):
      self._Nb = value
      # make sure the number of switches in the state b, i.e., Nb,
      # does not exceed the total number of switches NMSS
      self._Nb[np.where(self._Nb < 0)] = self.NMSS[np.where(self._Nb < 0)]
      self._Nb[np.where(self._Nb > self.NMSS)] = self.NMSS[np.where(self._Nb > self.NMSS)]

  @property
  def G(self, Nb=None):
      if Nb is None:
          return self._Nb * (self._Gb - self._Ga) + self.NMSS * self._Ga
      else:
          return Nb * (self._Gb - self._Ga) + self.NMSS * self._Ga
  \<close>
\<close>

definition Nb_setter :: "mss \<Rightarrow> matrix \<Rightarrow> error + mss" where
  "Nb_setter r val =
     (let neg = np_where (\<lambda>x. x < 0) val in
      then_do (take_idx (NMSS r) neg)
        (\<lambda>v1. then_do (put_idx val neg v1)
        (\<lambda>Nb1. then_do (ew2 (\<lambda>x y. x > y) Nb1 (NMSS r))
        (\<lambda>gt. then_do (take_idx (NMSS r) (np_where (\<lambda>x. x) gt))
        (\<lambda>v2. then_do (put_idx Nb1 (np_where (\<lambda>x. x) gt) v2)
        (\<lambda>Nb2. Inr (r\<lparr>self_Nb := Nb2\<rparr>)))))))"

definition G_getter :: "mss \<Rightarrow> matrix option \<Rightarrow> error + matrix" where
  "G_getter r Nb =
     (case Nb of None \<Rightarrow> conductance r (self_Nb r) | Some nb \<Rightarrow> conductance r nb)"



text \<open>
  \<^verbatim>\<open>
  def dG(self, V, G=None, dt=1e-4, return_dNb=False):
      if G is not None:
          Nb = mask((G - self.NMSS * self._Ga)/(self._Gb - self._Ga))
      else:
          Nb = self._Nb
      alpha = dt/self.tc
      exponent = -1 * (V - self.vA) / self.VT
      Pa = alpha / (1 + np.exp(exponent))
      exponent = -1 * (V + self.vB) / self.VT
      Pb = alpha * (1 - 1 / (1 + np.exp(exponent)))
      Na = self.NMSS - Nb
      Gab = np.random.binomial(Na.astype(int), mask(self, Pa))
      Gba = np.random.binomial(Nb.astype(int), mask(self, Pb))
      if check_symmetric(self._W):
          Gab = make_symmetric(Gab)
          Gba = make_symmetric(Gba)
      dNb = (Gab-Gba)
      dG = dNb * (self._Gb-self._Ga)
      if return_dNb: return dNb
      else: return dG
  \<close>
  With \<open>G\<close> given, the argument of \<open>mask\<close> is evaluated (a string minus an array is a
  TypeError, arrays that do not broadcast a ValueError) and then \<open>mask\<close> is called with
  one argument instead of two, which is a TypeError. \<open>switch_count r G\<close> is that argument,
  \<open>(G - self.NMSS * self._Ga)/(self._Gb - self._Ga)\<close>; where the denominator is zero NumPy
  gives \<open>nan\<close> or an infinity with a warning and no error, the model has the quotient of
  the reals there, and nothing is stated about those entries. Where \<open>tc\<close> is zero, as it is off the
  mask, \<open>dt/self.tc\<close> is \<open>inf\<close> or \<open>nan\<close> in NumPy and 0 in the reals; off the mask \<open>mask\<close>
  overwrites those entries of \<open>Pa\<close> and \<open>Pb\<close> with 0. \<open>Pa\<close> and \<open>Pb\<close> are new arrays that
  are passed to \<open>mask\<close>; the binomial draws read the objects that \<open>mask\<close> returns. \<open>V\<close> is
  only read and is given by its content, and so is the result, a new array.
\<close>

definition switch_count :: "mss \<Rightarrow> matrix \<Rightarrow> error + matrix" where
  "switch_count r G =
     then_do (ew2 (*) (NMSS r) (self_Ga r))
       (\<lambda>a. then_do (ew2 (-) G a)
       (\<lambda>b. then_do (ew2 (-) (self_Gb r) (self_Ga r))
       (\<lambda>c. ew2 (/) b c)))"



section \<open>Fixed-point iteration\<close>

text \<open>
  A floating-point result that need not be a number: \<open>0/0\<close> is \<open>nan\<close>, and the maximum
  of a masked array whose entries are all masked is the constant \<open>masked\<close>. Every
  comparison with \<open>nan\<close> or \<open>masked\<close> is false in a condition.
  \<^verbatim>\<open>
  def getError(self, x_0, x_1):
      return 2 * np.abs(x_1-x_0)/(np.abs(x_1)+np.abs(x_0))
  \<close>
  The denominator is zero only when both entries are zero, and then the quotient is
  \<open>0/0\<close>. A one-dimensional array is passed as a matrix with one row.
\<close>

datatype fval = Num real | NaN | Masked



text \<open>
  \<open>np.max(ma.masked_array(data, mask=W))\<close> for one-dimensional \<open>data\<close>. The shapes of
  data and mask differ, so \<open>numpy.ma\<close> resizes a mask of one element, reshapes a mask
  with as many elements as the data, and raises MaskError otherwise. A nonzero entry
  of the mask hides the entry of the data. The maximum of no element at all is a
  ValueError, \<open>nan\<close> among the visible entries gives \<open>nan\<close>.
\<close>

fun fmax2 :: "fval \<Rightarrow> fval \<Rightarrow> fval" where
  "fmax2 (Num a) (Num b) = Num (max a b)"
| "fmax2 Masked y = y"
| "fmax2 x Masked = x"
| "fmax2 _ _ = NaN"

definition ma_max :: "fval list \<Rightarrow> matrix \<Rightarrow> error + fval" where
  "ma_max data W =
     (let nd = length data; nm = nrows W * ncols W in
      then_do
        (if nm = 1 then Inr (replicate nd (W ! 0 ! 0 \<noteq> 0))
         else if nm = nd then Inr (map (\<lambda>x. x \<noteq> 0) (concat W))
         else Inl MaskError)
        (\<lambda>hidden. if nd = 0 then Inl ValueError
           else Inr (fold fmax2 (map fst (filter (\<lambda>(v, h). \<not> h) (zip data hidden))) Masked)))"

text \<open>Python's \<open>max(a, b)\<close> returns \<open>b\<close> only if \<open>b > a\<close> holds; \<open>x < tol\<close>.\<close>

fun fgt :: "fval \<Rightarrow> fval \<Rightarrow> bool" where
  "fgt (Num a) (Num b) = (a > b)"
| "fgt _ _ = False"

definition py_max :: "fval \<Rightarrow> fval \<Rightarrow> fval" where
  "py_max a b = (if fgt b a then b else a)"

fun flt :: "fval \<Rightarrow> real \<Rightarrow> bool" where
  "flt (Num a) t = (a < t)"
| "flt _ t = False"

text \<open>
  \<^verbatim>\<open>
  def iterate(self, V_E, tol=1e-5, iters=10):
      V_I_0 = 'guess'
      G_0   = 'guess' # based on self._G
      convergence = False
      n_iters = 0
      while not convergence:
          if n_iters >= iters: break
          V = self.getV(V_I_0, V_E)
          G_1 = self._G + self.dG(V, G_0)
          V_I_1 = self.solveV_I(V_E)
          error_V_I = self.getError(V_I_0, V_I_1)
          error_G   = self.getError(G_0, G_1)
          V_I_0 = V_I_1
          G_0   = G_1
          max_error = max(np.max(ma.masked_array(error_V_I, mask=self._W)), np.max(ma.masked_array(error_V_I, mask=self._W)))
          if max_error < tol:
              convergence = True
              return V_I_1, G_1
          n_iters += 1
  \<close>
  \<open>convergence_test\<close> is the test of the last lines, with both errors of the pass as
  arguments; \<open>iterate_body\<close> is one pass of the loop, which returns the outcome of the
  test and the new \<open>V_I_1\<close> and \<open>G_1\<close>. Leaving the loop by \<open>break\<close> ends the function
  without a \<open>return\<close>: the result is \<open>None\<close>. \<open>dG\<close> exists in the subclass only, so the
  receiver is an MSSNetwork; the samples of pass \<open>n\<close> are \<open>sample_ab n\<close> and
  \<open>sample_ba n\<close>. The passes hand the store on to one another.
\<close>

definition convergence_test ::
    "'a reservoir_scheme \<Rightarrow> fval list \<Rightarrow> fval list list \<Rightarrow> real \<Rightarrow> error + bool" where
  "convergence_test r error_V_I error_G tol =
     then_do (ma_max error_V_I (self_W r))
       (\<lambda>m1. then_do (ma_max error_V_I (self_W r))
       (\<lambda>m2. Inr (flt (py_max m1 m2) tol)))"





section \<open>Reference notions of the specification\<close>

text \<open>
  The entry of the matrix after the first two steps of \<open>setW\<close> (binary, with zero
  diagonal), and the entry of the undirected closure that the specification asks for:
  an edge between two different nodes iff the input has one in either direction.
\<close>

definition bin_entry :: "matrix \<Rightarrow> nat \<Rightarrow> nat \<Rightarrow> real" where
  "bin_entry w i j = (if i = j then 0 else if w ! i ! j \<noteq> 0 then 1 else 0)"

definition closure_entry :: "matrix \<Rightarrow> nat \<Rightarrow> nat \<Rightarrow> real" where
  "closure_entry w i j = (if i \<noteq> j \<and> (w ! i ! j \<noteq> 0 \<or> w ! j ! i \<noteq> 0) then 1 else 0)"

text \<open>
  A valid node partition in the sense of the specification: the three index sets are
  pairwise disjoint and cover exactly the nodes \<open>0..N-1\<close>.
\<close>

definition valid_partition :: "nat \<Rightarrow> nat list \<Rightarrow> nat list \<Rightarrow> nat list \<Rightarrow> bool" where
  "valid_partition n i_nodes e_nodes gr_nodes =
     (set i_nodes \<inter> set e_nodes = {} \<and> set i_nodes \<inter> set gr_nodes = {} \<and>
      set e_nodes \<inter> set gr_nodes = {} \<and>
      set i_nodes \<union> set e_nodes \<union> set gr_nodes = {0..<n})"



definition example_mss :: mss where
  "example_mss =
     \<lparr>self_W = [[0, 1], [1, 0]], self_I = [0], self_E = [1], self_GR = [],
      n_internal_nodes = 1, n_external_nodes = 1, n_grounded_nodes = 0, n_nodes = 2,
      self_G = Some [[0, 7], [7, 0]],
      vA = [[0, 1], [1, 0]], vB = [[0, 1], [1, 0]], tc = [[0, 1], [1, 0]],
      NMSS = [[0, 5], [5, 0]], Woff = [[0, 5], [5, 0]], Won = [[0, 10], [10, 0]],
      self_Ga = [[0, 1], [1, 0]], self_Gb = [[0, 2], [2, 0]], self_Nb = [[0, 2], [2, 0]]\<rparr>"

text \<open>
  The masking invariant of the specification: \<open>a\<close> is zero wherever the mask \<open>W\<close> is.
\<close>

definition zero_off_mask :: "matrix \<Rightarrow> matrix \<Rightarrow> bool" where
  "zero_off_mask W a = (\<forall>i<nrows W. \<forall>j<ncols W. W ! i ! j = 0 \<longrightarrow> a ! i ! j = 0)"


text \<open>
  The linear system of the specification. \<open>admittance G\<close> has the row sums of \<open>G\<close> on
  the diagonal and \<open>-G\<close> elsewhere; \<open>mat_vec\<close> and \<open>mat_mul\<close> are the products of a matrix
  with a vector and with a matrix; \<open>identity n\<close> is the unit matrix.
\<close>

definition admittance :: "matrix \<Rightarrow> nat \<Rightarrow> nat \<Rightarrow> real" where
  "admittance G i j = (if i = j then sum_list (G ! i) else - (G ! i ! j))"

definition mat_vec :: "matrix \<Rightarrow> vec \<Rightarrow> vec" where
  "mat_vec A v = map (\<lambda>row. dotv row v) A"

definition mat_mul :: "matrix \<Rightarrow> matrix \<Rightarrow> matrix" where
  "mat_mul A B = mk (nrows A) (ncols B) (\<lambda>i j. dotv (A ! i) (map (\<lambda>row. row ! j) B))"

definition identity :: "nat \<Rightarrow> matrix" where
  "identity n = mk n n (\<lambda>i j. if i = j then 1 else 0)"

text \<open>
  The triangle of the specification's scenario: three nodes, every pair joined, node 0
  internal, node 1 external, node 2 grounded.
\<close>

definition triangle :: reservoir where
  "triangle =
     \<lparr>self_W = [[0, 1, 1], [1, 0, 1], [1, 1, 0]], self_I = [0], self_E = [1], self_GR = [2],
      n_internal_nodes = 1, n_external_nodes = 1, n_grounded_nodes = 1, n_nodes = 3,
      self_G = None\<rparr>"

text \<open>
  What \<open>numpy.linalg.inv\<close> does on a matrix of one row and one column, for the scenario:
  the reciprocal, and LinAlgError for a singular matrix.
\<close>

definition inv_1x1 :: "matrix \<Rightarrow> error + matrix" where
  "inv_1x1 A =
     (case A of
        [[x]] \<Rightarrow> (if x = 0 then Inl LinAlgError else Inr [[1 / x]])
      | _ \<Rightarrow> Inl LinAlgError)"

text \<open>
  The smallest reservoir: one node, which is internal. It is what the constructor
  builds from the connectivity \<open>[[0]]\<close>; its mask has one element.
\<close>

definition single_node :: reservoir where
  "single_node =
     \<lparr>self_W = [[0]], self_I = [0], self_E = [], self_GR = [],
      n_internal_nodes = 1, n_external_nodes = 0, n_grounded_nodes = 0, n_nodes = 1,
      self_G = None\<rparr>"

section \<open>Verified properties\<close>

lemma mk_nth: "i < r \<Longrightarrow> j < c \<Longrightarrow> mk r c f ! i ! j = f i j"
  by (simp add: mk_def)

lemma length_mk: "length (mk r c f) = r"
  by (simp add: mk_def)

lemma length_mk_row: "i < r \<Longrightarrow> length (mk r c f ! i) = c"
  by (simp add: mk_def)

lemma is_mat_mk: "is_mat r c (mk r c f)"
  by (simp add: is_mat_def mk_def list_all_iff)

lemma nrows_mk: "nrows (mk r c f) = r"
  by (simp add: nrows_def mk_def)

lemma ncols_mk: "ncols (mk r c f) = (if r = 0 then 0 else c)"
  by (cases r) (simp_all add: ncols_def mk_def upt_rec[of 0])

lemma mk_cong: "(\<And>i j. i < r \<Longrightarrow> j < c \<Longrightarrow> f i j = g i j) \<Longrightarrow> mk r c f = mk r c g"
  by (simp add: mk_def)

lemma mk_zero_rows: "mk 0 c f = []"
  by (simp add: mk_def)

lemma is_mat_nrows: "is_mat r c a \<Longrightarrow> nrows a = r"
  by (simp add: is_mat_def nrows_def)

lemma is_mat_ncols: "is_mat r c a \<Longrightarrow> 0 < r \<Longrightarrow> ncols a = c"
  by (cases a) (simp_all add: is_mat_def ncols_def)

lemma is_mat_row: "is_mat r c a \<Longrightarrow> i < r \<Longrightarrow> length (a ! i) = c"
  by (simp add: is_mat_def list_all_length)

lemma at2_in: "is_mat r c a \<Longrightarrow> i < r \<Longrightarrow> j < c \<Longrightarrow> at2 a i j = a ! i ! j"
  by (auto simp: at2_def is_mat_nrows is_mat_ncols)

lemma broadcast_dim_same: "broadcast_dim n n = Some n"
  by (simp add: broadcast_dim_def)

lemma ew2_same_shape:
  assumes "is_mat r c a" and "is_mat r c b"
  shows "ew2 f a b = Inr (mk r c (\<lambda>i j. f (a ! i ! j) (b ! i ! j)))"
proof (cases "r = 0")
  case True
  with assms show ?thesis
    by (simp add: ew2_def is_mat_def nrows_def ncols_def broadcast_dim_same mk_zero_rows)
next
  case False
  then have "ncols a = c" "ncols b = c" "nrows a = r" "nrows b = r"
    using assms by (simp_all add: is_mat_ncols is_mat_nrows)
  moreover have "mk r c (\<lambda>i j. f (at2 a i j) (at2 b i j)) = mk r c (\<lambda>i j. f (a ! i ! j) (b ! i ! j))"
    using assms by (intro mk_cong) (simp add: at2_in)
  ultimately show ?thesis
    by (simp add: ew2_def broadcast_dim_same)
qed

lemma T_square: "is_mat r c a \<Longrightarrow> 0 < r \<Longrightarrow> T a = mk c r (\<lambda>i j. a ! j ! i)"
  by (simp add: T_def is_mat_ncols is_mat_nrows)

lemma T_mk: "T (mk n n f) = mk n n (\<lambda>i j. f j i)"
proof (cases "n = 0")
  case True then show ?thesis by (simp add: T_def mk_zero_rows ncols_def nrows_def)
next
  case False
  then have "T (mk n n f) = mk n n (\<lambda>i j. mk n n f ! j ! i)"
    by (simp add: T_def ncols_mk nrows_mk)
  also have "\<dots> = mk n n (\<lambda>i j. f j i)"
    by (intro mk_cong) (simp add: mk_nth)
  finally show ?thesis .
qed


lemma list_all_mk: "list_all (list_all P) (mk r c f) = (\<forall>i<r. \<forall>j<c. P (f i j))"
  by (auto simp: mk_def list_all_iff)



lemma isclose_bits:
  assumes "x = 0 \<or> x = 1" and "y = 0 \<or> y = 1"
  shows "isclose (1 / 10 ^ 5) (1 / 10 ^ 16) x y = (x = y)"
  using assms by (auto simp: isclose_def)

lemma check_symmetric_mk:
  "check_symmetric (mk n n g) tol = Inr (\<forall>i<n. \<forall>j<n. isclose (1 / 10 ^ 5) tol (g i j) (g j i))"
  by (simp add: check_symmetric_def allclose_def T_mk ew2_same_shape [OF is_mat_mk is_mat_mk]
      list_all_mk mk_nth cong: conj_cong)

lemma set_triu_indices_from:
  "set (triu_indices_from a k) = {(i, j). i < nrows a \<and> j < ncols a \<and> i + k \<le> j}"
  by (auto simp: triu_indices_from_def)

lemma in_bounds_triu: "in_bounds a (triu_indices_from a k)"
  by (auto simp: in_bounds_def list_all_iff set_triu_indices_from)

lemma map_of_rev_zip_map:
  "map_of (rev (zip xs (map f xs))) = (\<lambda>x. if x \<in> set xs then Some (f x) else None)"
proof -
  have "rev (zip xs (map f xs)) = zip (rev xs) (map f (rev xs))"
    by (simp add: rev_map flip: zip_rev)
  then show ?thesis
    by (simp add: map_of_zip_map)
qed

lemma put_idx_map:
  assumes "in_bounds a idx"
  shows "put_idx a idx (map f idx) =
    Inr (mk (nrows a) (ncols a) (\<lambda>i j. if (i, j) \<in> set idx then f (i, j) else a ! i ! j))"
proof -
  have "(\<lambda>i j. case (if (i, j) \<in> set idx then Some (f (i, j)) else None) of
             None \<Rightarrow> a ! i ! j | Some v \<Rightarrow> v) =
        (\<lambda>i j. if (i, j) \<in> set idx then f (i, j) else a ! i ! j)"
    by (intro ext) simp
  with assms show ?thesis
    by (simp add: put_idx_def map_of_rev_zip_map)
qed

lemma map2_map_map_same:
  "map2 h (map f xs) (map g xs) = map (\<lambda>x. h (f x) (g x)) xs"
  by (induction xs) simp_all


lemma nrows_ncols_mk_square: "nrows (mk n n f) = n" "ncols (mk n n f) = n"
  by (simp_all add: nrows_mk ncols_mk)

lemma fill_diagonal_astype:
  assumes "is_mat n n w"
  shows "fill_diagonal (astype_bool_int w) 0 = mk n n (bin_entry w)"
proof -
  have m: "is_mat n n (astype_bool_int w)"
    using assms by (simp add: is_mat_def astype_bool_int_def list_all_iff)
  have r: "nrows (astype_bool_int w) = n"
    using m by (rule is_mat_nrows)
  have c: "ncols (astype_bool_int w) = n"
  proof (cases "n = 0")
    case True
    with m show ?thesis by (simp add: is_mat_def ncols_def)
  next
    case False
    with m show ?thesis by (simp add: is_mat_ncols)
  qed
  have "mk n n (\<lambda>i j. if i = j then 0 else astype_bool_int w ! i ! j) = mk n n (bin_entry w)"
    using assms
    by (intro mk_cong) (simp add: bin_entry_def astype_bool_int_def is_mat_def list_all_length)
  then show ?thesis
    by (simp add: fill_diagonal_def r c)
qed

lemma take_idx_mk:
  assumes "in_bounds (mk n n f) idx"
  shows "take_idx (mk n n f) idx = Inr (map (\<lambda>(i, j). f i j) idx)"
proof -
  have "map (\<lambda>(i, j). mk n n f ! i ! j) idx = map (\<lambda>(i, j). f i j) idx"
    using assms
    by (intro map_cong) (auto simp: in_bounds_def list_all_iff nrows_ncols_mk_square mk_nth)
  with assms show ?thesis
    by (simp add: take_idx_def)
qed

lemma in_bounds_square_cong:
  "in_bounds (mk n n f) idx \<Longrightarrow> in_bounds (mk n n g) idx"
  by (simp add: in_bounds_def nrows_ncols_mk_square)

lemma make_symmetric_upper_mk:
  "make_symmetric (mk n n f) False =
     Inr (mk n n (\<lambda>i j. if i < j then f i j else if j < i then f j i else 0))"
proof -
  have t: "triu (mk n n f) 1 = mk n n (\<lambda>i j. if i < j then f i j else 0)"
    unfolding triu_def nrows_ncols_mk_square
    by (intro mk_cong) (auto simp: mk_nth)
  have "mk n n (\<lambda>i j. mk n n (\<lambda>i j. if i < j then f i j else 0) ! i ! j
                      + mk n n (\<lambda>i j. if j < i then f j i else 0) ! i ! j)
      = mk n n (\<lambda>i j. if i < j then f i j else if j < i then f j i else 0)"
    by (intro mk_cong) (auto simp: mk_nth)
  then show ?thesis
    by (simp add: make_symmetric_def t T_mk ew2_same_shape [OF is_mat_mk is_mat_mk])
qed

lemma setW_square:
  assumes "is_mat n n w"
  shows "setW w = Inr (mk n n (closure_entry w))"
proof -
  let ?g = "bin_entry w"
  let ?idx = "triu_indices_from (mk n n ?g) 1"
  have w: "fill_diagonal (astype_bool_int w) 0 = mk n n ?g"
    using assms by (rule fill_diagonal_astype)
  have bits: "\<And>i j. ?g i j = 0 \<or> ?g i j = 1"
    by (simp add: bin_entry_def)
  have sym: "check_symmetric (mk n n ?g) (1 / 10 ^ 16) = Inr (\<forall>i<n. \<forall>j<n. ?g i j = ?g j i)"
    by (simp only: check_symmetric_mk isclose_bits [OF bits bits])
  show ?thesis
  proof (cases "\<forall>i<n. \<forall>j<n. ?g i j = ?g j i")
    case True
    have "mk n n ?g = mk n n (closure_entry w)"
    proof (intro mk_cong)
      fix i j assume "i < n" "j < n"
      with True have "?g i j = ?g j i" by simp
      then show "?g i j = closure_entry w i j"
        by (auto simp: bin_entry_def closure_entry_def split: if_splits)
    qed
    with True show ?thesis
      unfolding setW_def w Let_def sym by simp
  next
    case False
    have ib: "in_bounds (mk n n ?g) ?idx"
      by (rule in_bounds_triu)
    have up: "take_idx (mk n n ?g) ?idx = Inr (map (\<lambda>(i, j). ?g i j) ?idx)"
      using ib by (rule take_idx_mk)
    have lo: "take_idx (T (mk n n ?g)) ?idx = Inr (map (\<lambda>(i, j). ?g j i) ?idx)"
      unfolding T_mk using in_bounds_square_cong [OF ib] by (rule take_idx_mk)
    have z: "zeros_like (mk n n ?g) = mk n n (\<lambda>i j. 0)"
      by (simp add: zeros_like_def nrows_ncols_mk_square)
    have put: "put_idx (mk n n (\<lambda>i j. 0)) ?idx
                 (map2 logical_or (map (\<lambda>(i, j). ?g i j) ?idx) (map (\<lambda>(i, j). ?g j i) ?idx))
               = Inr (mk n n (\<lambda>i j. if i < j then logical_or (?g i j) (?g j i) else 0))"
    proof -
      have "mk n n (\<lambda>i j. if (i, j) \<in> set ?idx
                 then logical_or ((\<lambda>(i, j). ?g i j) (i, j)) ((\<lambda>(i, j). ?g j i) (i, j))
                 else mk n n (\<lambda>i j. 0) ! i ! j)
            = mk n n (\<lambda>i j. if i < j then logical_or (?g i j) (?g j i) else 0)"
        by (intro mk_cong) (auto simp: set_triu_indices_from nrows_ncols_mk_square mk_nth)
      then show ?thesis
        unfolding map2_map_map_same
        using put_idx_map [OF in_bounds_square_cong [OF ib], of "\<lambda>i j. 0"
            "\<lambda>p. logical_or ((\<lambda>(i, j). ?g i j) p) ((\<lambda>(i, j). ?g j i) p)"]
        by (simp add: nrows_ncols_mk_square)
    qed
    have fin: "mk n n (\<lambda>i j. if i < j then (if i < j then logical_or (?g i j) (?g j i) else 0)
                  else if j < i then (if j < i then logical_or (?g j i) (?g i j) else 0) else 0)
          = mk n n (closure_entry w)"
      by (intro mk_cong) (auto simp: logical_or_def bin_entry_def closure_entry_def)
    have nf: "(\<forall>i<n. \<forall>j<n. ?g i j = ?g j i) = False"
      using False by simp
    show ?thesis
      unfolding setW_def w Let_def sym nf
      by (simp add: up lo z put make_symmetric_upper_mk fin del: One_nat_def)
  qed
qed


lemma closure_entry_facts:
  "closure_entry w i j = closure_entry w j i"
  "closure_entry w i i = 0"
  "closure_entry w i j = 0 \<or> closure_entry w i j = 1"
  "i \<noteq> j \<Longrightarrow> (closure_entry w i j = 1) = (w ! i ! j \<noteq> 0 \<or> w ! j ! i \<noteq> 0)"
  by (auto simp: closure_entry_def)

text \<open>
  Claim C3. For every square raw connectivity matrix \<open>w\<close>, \<open>setW\<close> returns a mask \<open>W\<close> of
  the same shape that is symmetric, has a zero diagonal and entries 0 or 1 only, and for
  \<open>i \<noteq> j\<close> has \<open>W[i,j] = 1\<close> exactly when \<open>w[i,j]\<close> or \<open>w[j,i]\<close> is nonzero.
\<close>

theorem setW_symmetric_binary_closure:
  assumes "is_mat n n w"
  shows "\<exists>W. setW w = Inr W \<and> is_mat n n W \<and>
           (\<forall>i<n. \<forall>j<n. W ! i ! j = W ! j ! i \<and> W ! i ! i = 0 \<and>
              (W ! i ! j = 0 \<or> W ! i ! j = 1) \<and>
              (i \<noteq> j \<longrightarrow> (W ! i ! j = 1) = (w ! i ! j \<noteq> 0 \<or> w ! j ! i \<noteq> 0)))"
proof -
  let ?W = "mk n n (closure_entry w)"
  have "setW w = Inr ?W"
    using assms by (rule setW_square)
  moreover have "is_mat n n ?W"
    by (rule is_mat_mk)
  moreover have "\<forall>i<n. \<forall>j<n. ?W ! i ! j = ?W ! j ! i \<and> ?W ! i ! i = 0 \<and>
              (?W ! i ! j = 0 \<or> ?W ! i ! j = 1) \<and>
              (i \<noteq> j \<longrightarrow> (?W ! i ! j = 1) = (w ! i ! j \<noteq> 0 \<or> w ! j ! i \<noteq> 0))"
    by (auto simp: mk_nth closure_entry_def)
  ultimately show ?thesis by blast
qed

lemma upt_3: "[0..<3] = [0, 1, 2]"
  by (simp add: upt_rec)

theorem setW_symmetric_binary_closure_witness:
  "\<exists>W. setW [[0, 2, 0], [0, 0, 0], [3, 0, 5]] = Inr W \<and> is_mat 3 3 W \<and>
       W ! 0 ! 1 = 1 \<and> W ! 1 ! 0 = 1 \<and> W ! 0 ! 2 = 1 \<and> W ! 2 ! 0 = 1 \<and>
       W ! 1 ! 2 = 0 \<and> W ! 2 ! 1 = 0 \<and> W ! 2 ! 2 = 0"
proof -
  have m: "is_mat 3 3 [[0, 2, 0], [0, 0, 0], [3, 0, 5 :: real]]"
    by (simp add: is_mat_def)
  from setW_symmetric_binary_closure [OF m]
  obtain W where W: "setW [[0, 2, 0], [0, 0, 0], [3, 0, 5]] = Inr W" "is_mat 3 3 W"
    and P: "\<forall>i<3. \<forall>j<3. W ! i ! j = W ! j ! i \<and> W ! i ! i = 0 \<and>
              (W ! i ! j = 0 \<or> W ! i ! j = 1) \<and>
              (i \<noteq> j \<longrightarrow> (W ! i ! j = 1) =
                 ([[0, 2, 0], [0, 0, 0], [3, 0, 5 :: real]] ! i ! j \<noteq> 0
                  \<or> [[0, 2, 0], [0, 0, 0], [3, 0, 5 :: real]] ! j ! i \<noteq> 0))"
    by blast
  have "W ! 0 ! 1 = 1" using P [rule_format, of 0 1] by simp
  moreover have "W ! 1 ! 0 = 1" using P [rule_format, of 1 0] by simp
  moreover have "W ! 0 ! 2 = 1" using P [rule_format, of 0 2] by simp
  moreover have "W ! 2 ! 0 = 1" using P [rule_format, of 2 0] by simp
  moreover have "W ! 1 ! 2 = 0" using P [rule_format, of 1 2] by auto
  moreover have "W ! 2 ! 1 = 0" using P [rule_format, of 2 1] P [rule_format, of 1 2] by auto
  moreover have "W ! 2 ! 2 = 0" using P [rule_format, of 2 2] by simp
  ultimately show ?thesis using W by blast
qed

lemma nrows_astype: "nrows (astype_bool_int a) = nrows a"
  by (simp add: nrows_def astype_bool_int_def)

lemma ncols_astype: "ncols (astype_bool_int a) = ncols a"
  by (cases a) (simp_all add: ncols_def astype_bool_int_def)

lemma nrows_fill_diagonal: "nrows (fill_diagonal a v) = nrows a"
  by (simp add: fill_diagonal_def nrows_mk)

lemma ncols_fill_diagonal: "0 < nrows a \<Longrightarrow> ncols (fill_diagonal a v) = ncols a"
  by (simp add: fill_diagonal_def ncols_mk)

lemma nrows_T: "nrows (T a) = ncols a"
  by (simp add: T_def nrows_mk)

lemma ncols_T: "0 < ncols a \<Longrightarrow> ncols (T a) = nrows a"
  by (simp add: T_def ncols_mk)

lemma broadcast_dim_clash: "a \<noteq> b \<Longrightarrow> a \<noteq> 1 \<Longrightarrow> b \<noteq> 1 \<Longrightarrow> broadcast_dim a b = None"
  by (simp add: broadcast_dim_def)

lemma check_symmetric_shape_clash:
  assumes "nrows a \<noteq> ncols a" and "2 \<le> nrows a" and "2 \<le> ncols a"
  shows "check_symmetric a tol = Inl ValueError"
proof -
  have "broadcast_dim (nrows a) (nrows (T a)) = None"
    using assms by (simp add: nrows_T broadcast_dim_clash)
  then show ?thesis
    by (simp add: check_symmetric_def allclose_def ew2_def)
qed

text \<open>
  Claim C9, as the code has it. \<open>setW\<close> has no squareness check of its own and there is
  no ShapeError: for a non-square matrix with at least two rows and two columns the
  comparison of \<open>w\<close> with its transpose in \<open>check_symmetric\<close> cannot broadcast the two
  shapes, and \<open>setW\<close> fails with NumPy's ValueError.
\<close>

theorem setW_non_square_ValueError:
  assumes "is_mat r c w" and "r \<noteq> c" and "2 \<le> r" and "2 \<le> c"
  shows "setW w = Inl ValueError"
proof -
  let ?w = "fill_diagonal (astype_bool_int w) 0"
  have r: "nrows w = r" and c: "ncols w = c"
    using assms by (simp_all add: is_mat_nrows is_mat_ncols)
  have "nrows ?w = r" and "ncols ?w = c"
    using assms r c by (simp_all add: nrows_fill_diagonal ncols_fill_diagonal nrows_astype ncols_astype)
  with assms have "check_symmetric ?w (1 / 10 ^ 16) = Inl ValueError"
    by (intro check_symmetric_shape_clash) simp_all
  then show ?thesis
    unfolding setW_def Let_def by simp
qed

theorem setW_non_square_ValueError_witness:
  "setW [[1, 0, 0], [0, 1, 0]] = Inl ValueError"
proof -
  have "is_mat 2 3 [[1, 0, 0], [0, 1, 0 :: real]]"
    by (simp add: is_mat_def)
  then show ?thesis
    by (rule setW_non_square_ValueError) simp_all
qed

theorem setW_non_square_counterexample:
  "\<not> check_square [[1, 0, 0]] \<and> setW [[1, 0, 0]] = Inr [[0, 0, 0]] \<and>
   \<not> check_square [[1], [1], [0]] \<and> setW [[1], [1], [0]] = Inr [[0, 0, 0], [0, 0, 0], [0, 0, 0]] \<and>
   \<not> check_square [[1, 0, 1]] \<and> setW [[1, 0, 1]] = Inl IndexError"
  by code_simp

lemma MemristiveReservoir_init_square:
  assumes "is_mat n n w"
  shows "MemristiveReservoir_init w i_nodes e_nodes gr_nodes =
           Inr \<lparr>self_W = mk n n (closure_entry w), self_I = i_nodes, self_E = e_nodes,
                self_GR = gr_nodes,
                n_internal_nodes = length i_nodes,
                n_external_nodes = length e_nodes,
                n_grounded_nodes = length gr_nodes,
                n_nodes = n, self_G = None\<rparr>"
  using assms by (simp add: MemristiveReservoir_init_def setW_square length_mk)

text \<open>
  Claim C8, as the code has it. The constructor stores the three index lists as they
  are given and checks nothing about them; there is no PartitionError. For every square
  connectivity matrix it succeeds, whatever the index lists are.
\<close>

theorem MemristiveReservoir_init_any_indices:
  assumes "is_mat n n w"
  shows "MemristiveReservoir_init w i_nodes e_nodes gr_nodes =
           Inr \<lparr>self_W = mk n n (closure_entry w), self_I = i_nodes, self_E = e_nodes,
                self_GR = gr_nodes,
                n_internal_nodes = length i_nodes,
                n_external_nodes = length e_nodes,
                n_grounded_nodes = length gr_nodes,
                n_nodes = n, self_G = None\<rparr>"
  using assms by (rule MemristiveReservoir_init_square)

theorem MemristiveReservoir_init_any_indices_witness:
  "MemristiveReservoir_init [[0, 1, 0], [1, 0, 1], [0, 1, 0]] [0, 1] [1, 2] [5] =
           Inr \<lparr>self_W = mk 3 3 (closure_entry [[0, 1, 0], [1, 0, 1], [0, 1, 0]]),
                self_I = [0, 1], self_E = [1, 2], self_GR = [5],
                n_internal_nodes = length [0, 1 :: nat],
                n_external_nodes = length [1, 2 :: nat],
                n_grounded_nodes = length [5 :: nat],
                n_nodes = 3, self_G = None\<rparr>"
proof -
  have "is_mat 3 3 [[0, 1, 0], [1, 0, 1], [0, 1, 0 :: real]]"
    by (simp add: is_mat_def)
  then show ?thesis
    by (rule MemristiveReservoir_init_any_indices)
qed

theorem MemristiveReservoir_init_counterexample:
  "\<not> valid_partition 2 [0] [0] [] \<and>
   MemristiveReservoir_init [[0, 1], [1, 0]] [0] [0] [] =
     Inr \<lparr>self_W = [[0, 1], [1, 0]], self_I = [0], self_E = [0], self_GR = [],
          n_internal_nodes = 1, n_external_nodes = 1, n_grounded_nodes = 0,
          n_nodes = 2, self_G = None\<rparr>"
  by code_simp

lemma set_np_where:
  "set (np_where P a) = {(i, j). i < nrows a \<and> j < ncols a \<and> P (a ! i ! j)}"
  by (auto simp: np_where_def)

lemma in_bounds_np_where:
  "nrows b = nrows a \<Longrightarrow> ncols b = ncols a \<Longrightarrow> in_bounds b (np_where P a)"
  by (auto simp: in_bounds_def list_all_iff set_np_where)

lemma put_idx_scalar:
  assumes "in_bounds a idx"
  shows "put_idx a idx [v] =
    Inr (mk (nrows a) (ncols a) (\<lambda>i j. if (i, j) \<in> set idx then v else a ! i ! j))"
proof -
  have "put_idx a idx [v] = put_idx a idx (map (\<lambda>_. v) idx)"
    by (cases idx) (auto simp: put_idx_def map_replicate_const)
  then show ?thesis
    using put_idx_map [OF assms, of "\<lambda>_. v"] by simp
qed

lemma is_mat_shape: "is_mat r c a \<Longrightarrow> nrows a = r \<and> (0 < r \<longrightarrow> ncols a = c)"
  by (simp add: is_mat_nrows is_mat_ncols)

lemma mk_cols_irrelevant: "mk 0 c f = mk 0 c' g"
  by (simp add: mk_def)

lemma masked_same_shape:
  assumes "is_mat r c W" and "is_mat r c a"
  shows "masked W a = Inr (mk r c (\<lambda>i j. if W ! i ! j = 0 then 0 else a ! i ! j))"
proof (cases "r = 0")
  case True
  with assms have "W = []" "a = []"
    by (simp_all add: is_mat_def)
  with True show ?thesis
    by (simp add: masked_def np_where_def put_idx_def in_bounds_def nrows_def ncols_def mk_def)
next
  case False
  then have s: "nrows W = r" "ncols W = c" "nrows a = r" "ncols a = c"
    using assms by (simp_all add: is_mat_nrows is_mat_ncols)
  have ib: "in_bounds a (np_where (\<lambda>x. x = 0) W)"
    by (rule in_bounds_np_where) (simp_all add: s)
  have "mk r c (\<lambda>i j. if (i, j) \<in> set (np_where (\<lambda>x. x = 0) W) then 0 else a ! i ! j)
      = mk r c (\<lambda>i j. if W ! i ! j = 0 then 0 else a ! i ! j)"
    by (intro mk_cong) (simp add: set_np_where s)
  then show ?thesis
    by (simp add: masked_def put_idx_scalar [OF ib] s)
qed











lemma then_do_Inr: "then_do (Inr v) f = f v"
  by (simp add: then_do_def)






text \<open>
  Claim C2 on the code. The first assignment of the setter writes \<open>NMSS\<close>, not 0, where
  the assigned value is negative: with \<open>NMSS = [[0, 5], [5, 0]]\<close> the value
  \<open>[[0, -1], [-1, 0]]\<close> is stored as \<open>[[0, 5], [5, 0]]\<close>.
\<close>

theorem Nb_setter_negative_becomes_NMSS:
  "Nb_setter example_mss [[0, - 1], [- 1, 0]] = Inr (example_mss\<lparr>self_Nb := [[0, 5], [5, 0]]\<rparr>)"
  by code_simp


lemma zero_off_mask_mk:
  assumes "is_mat n n W" and "\<And>i j. i < n \<Longrightarrow> j < n \<Longrightarrow> W ! i ! j = 0 \<Longrightarrow> f i j = 0"
  shows "zero_off_mask W (mk n n f)"
proof (cases "n = 0")
  case True
  with assms(1) show ?thesis
    by (simp add: zero_off_mask_def is_mat_nrows)
next
  case False
  with assms show ?thesis
    by (simp add: zero_off_mask_def is_mat_nrows is_mat_ncols mk_nth)
qed



lemma masked_zero_off_mask:
  assumes "is_mat n n W" and "is_mat n n a"
  shows "\<exists>m. masked W a = Inr m \<and> is_mat n n m \<and> zero_off_mask W m"
  unfolding masked_same_shape [OF assms]
  using assms(1) by (auto intro!: is_mat_mk zero_off_mask_mk)









































lemma conductance_same_shape:
  assumes "is_mat n n (NMSS r)" and "is_mat n n (self_Ga r)" and "is_mat n n (self_Gb r)"
    and "is_mat n n Nb"
  shows "conductance r Nb
           = Inr (mk n n (\<lambda>i j. Nb ! i ! j * (self_Gb r ! i ! j - self_Ga r ! i ! j)
                                 + NMSS r ! i ! j * self_Ga r ! i ! j))"
  unfolding conductance_def
  by (simp add: ew2_same_shape [OF assms(3) assms(2)] ew2_same_shape [OF assms(4) is_mat_mk]
      ew2_same_shape [OF assms(1) assms(2)] ew2_same_shape [OF is_mat_mk is_mat_mk]
      then_do_Inr mk_nth cong: mk_cong)

lemma switch_count_same_shape:
  assumes "is_mat n n (NMSS r)" and "is_mat n n (self_Ga r)" and "is_mat n n (self_Gb r)"
    and "is_mat n n G"
  shows "switch_count r G
           = Inr (mk n n (\<lambda>i j. (G ! i ! j - NMSS r ! i ! j * self_Ga r ! i ! j)
                                 / (self_Gb r ! i ! j - self_Ga r ! i ! j)))"
  unfolding switch_count_def
  by (simp add: ew2_same_shape [OF assms(3) assms(2)] ew2_same_shape [OF assms(4) is_mat_mk]
      ew2_same_shape [OF assms(1) assms(2)] ew2_same_shape [OF is_mat_mk is_mat_mk]
      then_do_Inr mk_nth cong: mk_cong)


text \<open>
  Claim C4. Floating-point numbers are taken as reals, so the tolerance of the claim is
  zero. Let the property matrices \<open>NMSS\<close>, \<open>Ga\<close> and \<open>Gb\<close> of a network and a switch-count
  matrix \<open>Nb\<close> all be \<open>n \<times> n\<close>. The conductance expression of the getter of \<open>G\<close> returns
  a matrix \<open>G\<close>, the expression \<open>(G - NMSS * Ga)/(Gb - Ga)\<close> by which \<open>dG\<close> reads a switch
  count back from a conductance returns an \<open>n \<times> n\<close> matrix \<open>Nb'\<close>, and \<open>Nb'\<close> equals \<open>Nb\<close> at
  every position where \<open>Gb\<close> and \<open>Ga\<close> differ. Neither the mask nor the bounds
  \<open>0 \<le> Nb \<le> NMSS\<close> are needed. The getter without argument is the same expression at
  the stored \<open>Nb\<close>. (In \<open>dG\<close> the value of the second expression is then handed to \<open>mask\<close>
  with one argument, see \<open>dG_given_G_raises\<close>; the round trip is a property of the two
  expressions.)
\<close>

theorem switch_count_round_trip:
  assumes "is_mat n n (NMSS r)" and "is_mat n n (self_Ga r)" and "is_mat n n (self_Gb r)"
    and "is_mat n n Nb"
  shows "(\<exists>G Nb'. G_getter r (Some Nb) = Inr G \<and> switch_count r G = Inr Nb'
            \<and> is_mat n n G \<and> is_mat n n Nb'
            \<and> (\<forall>i<n. \<forall>j<n. self_Gb r ! i ! j \<noteq> self_Ga r ! i ! j
                  \<longrightarrow> Nb' ! i ! j = Nb ! i ! j))
       \<and> G_getter r None = G_getter r (Some (self_Nb r))"
proof
  let ?G = "mk n n (\<lambda>i j. Nb ! i ! j * (self_Gb r ! i ! j - self_Ga r ! i ! j)
                            + NMSS r ! i ! j * self_Ga r ! i ! j)"
  let ?Nb' = "mk n n (\<lambda>i j. (?G ! i ! j - NMSS r ! i ! j * self_Ga r ! i ! j)
                              / (self_Gb r ! i ! j - self_Ga r ! i ! j))"
  have g: "G_getter r (Some Nb) = Inr ?G"
    by (simp add: G_getter_def conductance_same_shape [OF assms])
  have s: "switch_count r ?G = Inr ?Nb'"
    using assms(1-3) is_mat_mk by (rule switch_count_same_shape)
  have e: "?Nb' ! i ! j = Nb ! i ! j"
    if "i < n" and "j < n" and "self_Gb r ! i ! j \<noteq> self_Ga r ! i ! j" for i j
    using that by (simp add: mk_nth)
  show "\<exists>G Nb'. G_getter r (Some Nb) = Inr G \<and> switch_count r G = Inr Nb'
            \<and> is_mat n n G \<and> is_mat n n Nb'
            \<and> (\<forall>i<n. \<forall>j<n. self_Gb r ! i ! j \<noteq> self_Ga r ! i ! j
                  \<longrightarrow> Nb' ! i ! j = Nb ! i ! j)"
    using g s e is_mat_mk by blast
  show "G_getter r None = G_getter r (Some (self_Nb r))"
    by (simp add: G_getter_def)
qed

lemma example_round_trip:
  "G_getter example_mss (Some [[0, 2], [2, 0]]) = Inr [[0, 7], [7, 0]]"
  "switch_count example_mss [[0, 7], [7, 0]] = Inr [[0, 2], [2, 0]]"
  by code_simp+

theorem switch_count_round_trip_witness:
  "G_getter example_mss (Some [[0, 2], [2, 0]]) = Inr [[0, 7], [7, 0]]
   \<and> switch_count example_mss [[0, 7], [7, 0]] = Inr [[0, 2], [2, 0]]
   \<and> self_Gb example_mss ! 0 ! 1 \<noteq> self_Ga example_mss ! 0 ! 1
   \<and> (\<exists>G Nb'. G_getter example_mss (Some [[0, 2], [2, 0]]) = Inr G
         \<and> switch_count example_mss G = Inr Nb' \<and> Nb' ! 0 ! 1 = 2 \<and> Nb' ! 1 ! 0 = 2)"
proof -
  have m: "is_mat 2 2 (NMSS example_mss)" "is_mat 2 2 (self_Ga example_mss)"
    "is_mat 2 2 (self_Gb example_mss)" "is_mat 2 2 [[0, 2], [2, 0]]"
    by (simp_all add: example_mss_def is_mat_def)
  have d: "self_Gb example_mss ! 0 ! 1 \<noteq> self_Ga example_mss ! 0 ! 1"
    "self_Gb example_mss ! 1 ! 0 \<noteq> self_Ga example_mss ! 1 ! 0"
    by (simp_all add: example_mss_def)
  from switch_count_round_trip [OF m, THEN conjunct1] obtain G Nb' where
    r: "G_getter example_mss (Some [[0, 2], [2, 0]]) = Inr G"
       "switch_count example_mss G = Inr Nb'"
       "\<forall>i<2. \<forall>j<2. self_Gb example_mss ! i ! j \<noteq> self_Ga example_mss ! i ! j
           \<longrightarrow> Nb' ! i ! j = [[0, 2], [2, 0]] ! i ! j"
    by blast
  have "Nb' ! 0 ! 1 = 2" "Nb' ! 1 ! 0 = 2"
    using r(3) d by auto
  with r(1,2) have e: "\<exists>G Nb'. G_getter example_mss (Some [[0, 2], [2, 0]]) = Inr G
         \<and> switch_count example_mss G = Inr Nb' \<and> Nb' ! 0 ! 1 = 2 \<and> Nb' ! 1 ! 0 = 2"
    by blast
  show ?thesis
    using example_round_trip d(1) e by (intro conjI)
qed

lemma triangle_constructed:
  "MemristiveReservoir_init [[0, 1, 1], [1, 0, 1], [1, 1, 0]] [0] [1] [2] = Inr triangle"
  by code_simp

lemma dotv_sum:
  assumes "length x = length y"
  shows "dotv x y = (\<Sum>k<length x. x ! k * y ! k)"
proof -
  have "dotv x y = sum_list (map (\<lambda>k. x ! k * y ! k) [0..<length x])"
    unfolding dotv_def using assms
    by (intro arg_cong [where f = sum_list] nth_equalityI) simp_all
  also have "\<dots> = (\<Sum>k<length x. x ! k * y ! k)"
    by (simp add: interv_sum_list_conv_sum_set_nat atLeast0LessThan)
  finally show ?thesis .
qed

lemma mat_vec_inverse:
  assumes A: "is_mat m m A" and B: "is_mat m m B" and H: "length H = m"
    and AB: "mat_mul A B = identity m"
  shows "mat_vec A (mat_vec B H) = H"
proof (rule nth_equalityI)
  show "length (mat_vec A (mat_vec B H)) = length H"
    using A H by (simp add: mat_vec_def is_mat_def)
next
  fix a assume "a < length (mat_vec A (mat_vec B H))"
  then have a: "a < m" using A by (simp add: mat_vec_def is_mat_def)
  then have m0: "0 < m" by simp
  have lenA: "length (A ! a) = m" using A a by (rule is_mat_row)
  have lenB: "\<And>k. k < m \<Longrightarrow> length (B ! k) = m" using B by (rule is_mat_row)
  have lB: "length B = m" using B by (simp add: is_mat_def)
  have ent: "(\<Sum>k<m. A ! a ! k * B ! k ! j) = (if a = j then 1 else 0)" if "j < m" for j
  proof -
    have "mat_mul A B ! a ! j = dotv (A ! a) (map (\<lambda>row. row ! j) B)"
      using a that A B m0 by (simp add: mat_mul_def is_mat_nrows is_mat_ncols mk_nth)
    also have "\<dots> = (\<Sum>k<m. A ! a ! k * B ! k ! j)"
      using lenA lB by (simp add: dotv_sum)
    finally show ?thesis
      using a that by (simp add: AB identity_def mk_nth)
  qed
  have "mat_vec A (mat_vec B H) ! a = dotv (A ! a) (mat_vec B H)"
    using a A by (simp add: mat_vec_def is_mat_def)
  also have "\<dots> = (\<Sum>k<m. A ! a ! k * mat_vec B H ! k)"
    using lenA lB by (simp add: dotv_sum mat_vec_def)
  also have "\<dots> = (\<Sum>k<m. A ! a ! k * (\<Sum>j<m. B ! k ! j * H ! j))"
    using lB lenB H by (intro sum.cong refl) (simp add: mat_vec_def dotv_sum)
  also have "\<dots> = (\<Sum>k<m. \<Sum>j<m. A ! a ! k * B ! k ! j * H ! j)"
    by (simp add: sum_distrib_left mult.assoc)
  also have "\<dots> = (\<Sum>j<m. \<Sum>k<m. A ! a ! k * B ! k ! j * H ! j)"
    by (rule sum.swap)
  also have "\<dots> = (\<Sum>j<m. (\<Sum>k<m. A ! a ! k * B ! k ! j) * H ! j)"
    by (simp add: sum_distrib_right)
  also have "\<dots> = (\<Sum>j<m. (if a = j then 1 else 0) * H ! j)"
    by (intro sum.cong refl) (simp add: ent)
  also have "\<dots> = (\<Sum>j\<in>{..<m}. if a = j then H ! j else 0)"
    by (intro sum.cong refl) simp
  also have "\<dots> = H ! a"
    using a by (simp add: sum.delta')
  finally show "mat_vec A (mat_vec B H) ! a = H ! a" .
qed

lemma map_map_mk:
  "map (\<lambda>i. map (\<lambda>j. f i j) cols) rows
     = mk (length rows) (length cols) (\<lambda>a b. f (rows ! a) (cols ! b))"
  by (auto simp: mk_def intro!: nth_equalityI)

lemma take_ix_square:
  assumes "is_mat n n a" and "\<forall>i\<in>set rows. i < n" and "\<forall>j\<in>set cols. j < n"
  shows "take_ix a rows cols
           = Inr (mk (length rows) (length cols) (\<lambda>p q. a ! (rows ! p) ! (cols ! q)))"
proof (cases "n = 0")
  case True
  have "rows = []"
    using assms(2) True by (cases rows) auto
  moreover have "cols = []"
    using assms(3) True by (cases cols) auto
  ultimately have "rows = []" "cols = []" .
  then show ?thesis
    by (simp add: take_ix_def mk_def)
next
  case False
  then have "nrows a = n" "ncols a = n"
    using assms(1) by (simp_all add: is_mat_nrows is_mat_ncols)
  then show ?thesis
    using assms(2,3) by (simp add: take_ix_def list_all_iff map_map_mk)
qed

lemma fill_diagonal_row_sums:
  assumes "is_mat n n G"
  shows "fill_diagonal_vals (mk n n (\<lambda>i j. 0)) (np_sum_axis1 G)
           = Inr (mk n n (\<lambda>i j. if i = j then sum_list (G ! i) else 0))"
proof (cases "n = 0")
  case True
  with assms show ?thesis
    by (simp add: fill_diagonal_vals_def np_sum_axis1_def is_mat_def nrows_def mk_def)
next
  case False
  have l: "length G = n" using assms by (simp add: is_mat_def)
  with False have ne: "np_sum_axis1 G \<noteq> []"
    by (auto simp: np_sum_axis1_def)
  have "mk (nrows (mk n n (\<lambda>i j. 0 :: real))) (ncols (mk n n (\<lambda>i j. 0 :: real)))
          (\<lambda>i j. if i = j then np_sum_axis1 G ! (i mod length (np_sum_axis1 G))
                  else mk n n (\<lambda>i j. 0) ! i ! j)
        = mk n n (\<lambda>i j. if i = j then np_sum_axis1 G ! (i mod length (np_sum_axis1 G))
                  else mk n n (\<lambda>i j. 0) ! i ! j)"
    using False by (simp add: nrows_mk ncols_mk)
  also have "\<dots> = mk n n (\<lambda>i j. if i = j then sum_list (G ! i) else 0)"
    by (rule mk_cong) (simp add: np_sum_axis1_def l mk_nth)
  finally have "mk (nrows (mk n n (\<lambda>i j. 0 :: real))) (ncols (mk n n (\<lambda>i j. 0 :: real)))
          (\<lambda>i j. if i = j then np_sum_axis1 G ! (i mod length (np_sum_axis1 G))
                  else mk n n (\<lambda>i j. 0) ! i ! j)
        = mk n n (\<lambda>i j. if i = j then sum_list (G ! i) else 0)" .
  with ne show ?thesis
    by (simp add: fill_diagonal_vals_def)
qed

lemma np_dot_mv_mk:
  assumes "length v = c"
  shows "np_dot_mv c (mk m c f) v = Inr (mat_vec (mk m c f) v)"
  using assms by (simp add: np_dot_mv_def mat_vec_def mk_def list_all_iff)

lemma np_dot_mv_is_mat:
  assumes "is_mat m c B" and "length v = c"
  shows "np_dot_mv c B v = Inr (mat_vec B v)"
  using assms by (simp add: np_dot_mv_def mat_vec_def is_mat_def)

lemma length_mat_vec: "length (mat_vec A v) = length A"
  by (simp add: mat_vec_def)

lemma solveV_I_solves:
  fixes r :: "'a reservoir_scheme"
  assumes Gsel: "(case G_arg of None \<Rightarrow> self_G r | Some g \<Rightarrow> Some g) = Some G"
    and G: "is_mat n n G" and diag: "\<forall>i<n. G ! i ! i = 0"
    and n: "n_nodes r = n"
    and I: "\<forall>i\<in>set (self_I r). i < n" and E: "\<forall>i\<in>set (self_E r). i < n"
    and GR: "\<forall>i\<in>set (self_GR r). i < n"
    and VE: "length V_E = length (self_E r)"
    and vgr: "vgr = (case V_GR of None \<Rightarrow> replicate (n_grounded_nodes r) 0 | Some v \<Rightarrow> v)"
    and VGR: "length vgr = length (self_GR r)"
    and A: "A_II = mk (length (self_I r)) (length (self_I r))
                     (\<lambda>a b. admittance G (self_I r ! a) (self_I r ! b))"
    and inv: "linalg_inv A_II = Inr B"
    and B: "is_mat (length (self_I r)) (length (self_I r)) B"
    and AB: "mat_mul A_II B = identity (length (self_I r))"
  shows "\<exists>V_I. solveV_I linalg_inv r V_E V_GR G_arg = Inr V_I \<and> length V_I = length (self_I r)
           \<and> mat_vec A_II V_I
               = map2 (+)
                   (mat_vec (mk (length (self_I r)) (length (self_E r))
                               (\<lambda>a e. G ! (self_I r ! a) ! (self_E r ! e))) V_E)
                   (mat_vec (mk (length (self_I r)) (length (self_GR r))
                               (\<lambda>a g. G ! (self_I r ! a) ! (self_GR r ! g))) vgr)"
proof -
  let ?m = "length (self_I r)"
  let ?GIE = "mk ?m (length (self_E r)) (\<lambda>a e. G ! (self_I r ! a) ! (self_E r ! e))"
  let ?GIGR = "mk ?m (length (self_GR r)) (\<lambda>a g. G ! (self_I r ! a) ! (self_GR r ! g))"
  let ?H = "map2 (+) (mat_vec ?GIE V_E) (mat_vec ?GIGR vgr)"
  let ?A = "mk n n (\<lambda>i j. (if i = j then sum_list (G ! i) else 0) - G ! i ! j)"
  have s1: "fill_diagonal_vals (mk (n_nodes r) (n_nodes r) (\<lambda>i j. 0)) (np_sum_axis1 G)
              = Inr (mk n n (\<lambda>i j. if i = j then sum_list (G ! i) else 0))"
    unfolding n using G by (rule fill_diagonal_row_sums)
  have s2: "ew2 (-) (mk n n (\<lambda>i j. if i = j then sum_list (G ! i) else 0)) G = Inr ?A"
    by (simp add: ew2_same_shape [OF is_mat_mk G] mk_nth cong: mk_cong)
  have ent: "?A ! (self_I r ! a) ! (self_I r ! b) = admittance G (self_I r ! a) (self_I r ! b)"
    if "a < ?m" and "b < ?m" for a b
  proof -
    have "self_I r ! a < n" "self_I r ! b < n"
      using I that by simp_all
    then show ?thesis
      using diag by (simp add: mk_nth admittance_def)
  qed
  have s3: "take_ix ?A (self_I r) (self_I r) = Inr A_II"
    unfolding A take_ix_square [OF is_mat_mk I I]
    by (simp add: ent cong: mk_cong)
  have s5: "take_ix G (self_I r) (self_E r) = Inr ?GIE"
    using G I E by (rule take_ix_square)
  have s6: "np_dot_mv (length (self_E r)) ?GIE V_E = Inr (mat_vec ?GIE V_E)"
    using VE by (rule np_dot_mv_mk)
  have s7: "take_ix G (self_I r) (self_GR r) = Inr ?GIGR"
    using G I GR by (rule take_ix_square)
  have s8: "np_dot_mv (length (self_GR r)) ?GIGR vgr = Inr (mat_vec ?GIGR vgr)"
    using VGR by (rule np_dot_mv_mk)
  have lH: "length ?H = ?m"
    by (simp add: length_mat_vec length_mk)
  have s9: "np_dot_mv ?m B ?H = Inr (mat_vec B ?H)"
    using B lH by (rule np_dot_mv_is_mat)
  have solve: "solveV_I linalg_inv r V_E V_GR G_arg = Inr (mat_vec B ?H)"
    unfolding solveV_I_def Gsel vgr [symmetric] Let_def
    by (simp only: option.case s1 s2 s3 inv s5 s6 s7 s8 s9 then_do_Inr)
  have Am: "is_mat ?m ?m A_II"
    unfolding A by (rule is_mat_mk)
  have "mat_vec A_II (mat_vec B ?H) = ?H"
    using Am B lH AB by (rule mat_vec_inverse)
  moreover have "length (mat_vec B ?H) = ?m"
    using B by (simp add: length_mat_vec is_mat_def)
  ultimately show ?thesis
    using solve by blast
qed

lemma triangle_voltage:
  assumes inv: "linalg_inv [[2]] = Inr [[1 / 2]]"
    and V_GR: "V_GR = None \<or> V_GR = Some [0]"
  shows "solveV_I linalg_inv triangle [1] V_GR (Some [[0, 1, 1], [1, 0, 1], [1, 1, 0]])
           = Inr [1 / 2]"
proof -
  let ?G = "[[0, 1, 1], [1, 0, 1], [1, 1, 0 :: real]]"
  have G: "is_mat 3 3 ?G"
    by (simp add: is_mat_def)
  have diag: "\<forall>i<3. ?G ! i ! i = 0"
    by (simp add: less_Suc_eq numeral_3_eq_3)
  have vgr: "[0] = (case V_GR of None \<Rightarrow> replicate (n_grounded_nodes triangle) 0 | Some v \<Rightarrow> v)"
    using V_GR by (auto simp: triangle_def)
  have A: "[[2]] = mk (length (self_I triangle)) (length (self_I triangle))
                     (\<lambda>a b. admittance ?G (self_I triangle ! a) (self_I triangle ! b))"
    by (simp add: triangle_def mk_def admittance_def)
  have AB: "mat_mul [[2]] [[1 / 2]] = identity (length (self_I triangle))"
    by (simp add: triangle_def mat_mul_def identity_def mk_def nrows_def ncols_def dotv_def)
  have "\<exists>V_I. solveV_I linalg_inv triangle [1] V_GR (Some ?G) = Inr V_I
          \<and> length V_I = length (self_I triangle)
          \<and> mat_vec [[2]] V_I
               = map2 (+)
                   (mat_vec (mk (length (self_I triangle)) (length (self_E triangle))
                               (\<lambda>a e. ?G ! (self_I triangle ! a) ! (self_E triangle ! e))) [1])
                   (mat_vec (mk (length (self_I triangle)) (length (self_GR triangle))
                               (\<lambda>a g. ?G ! (self_I triangle ! a) ! (self_GR triangle ! g))) [0])"
    by (rule solveV_I_solves [where r = triangle and G_arg = "Some ?G" and G = ?G and n = 3
          and V_E = "[1]" and V_GR = V_GR and vgr = "[0]" and A_II = "[[2]]"
          and linalg_inv = linalg_inv and B = "[[1 / 2]]",
          OF _ G diag _ _ _ _ _ vgr _ A inv _ AB])
       (simp_all add: triangle_def is_mat_def)
  then obtain V_I where
    s: "solveV_I linalg_inv triangle [1] V_GR (Some ?G) = Inr V_I"
    and l: "length V_I = 1"
    and e: "mat_vec [[2]] V_I
               = map2 (+)
                   (mat_vec (mk (length (self_I triangle)) (length (self_E triangle))
                               (\<lambda>a e. ?G ! (self_I triangle ! a) ! (self_E triangle ! e))) [1])
                   (mat_vec (mk (length (self_I triangle)) (length (self_GR triangle))
                               (\<lambda>a g. ?G ! (self_I triangle ! a) ! (self_GR triangle ! g))) [0])"
    by (auto simp: triangle_def)
  from l obtain x where x: "V_I = [x]"
    by (cases V_I) auto
  from e have "x = 1 / 2"
    by (simp add: x triangle_def mat_vec_def mk_def dotv_def)
  with s x show ?thesis by simp
qed

text \<open>
  Claim C1. Floating-point numbers are taken as reals and \<open>numpy.linalg.inv\<close> is the
  argument \<open>linalg_inv\<close>. Let \<open>G\<close> be a conductance matrix of a reservoir on \<open>n\<close> nodes, given
  as argument or cached in the object: \<open>n \<times> n\<close> with zero diagonal, as every conductance
  matrix is that the core produces (it is zero off the mask, and the mask has zero
  diagonal). Let the node indices be less than \<open>n\<close>, let the voltage vectors have the
  lengths of the external and of the grounded index list (no \<open>V_GR\<close> stands for zeros),
  and let \<open>A_II\<close> be the admittance matrix restricted to the internal nodes. When
  \<open>linalg_inv\<close> returns an inverse \<open>B\<close> of \<open>A_II\<close>, \<open>solveV_I\<close> returns a vector \<open>V_I\<close> with
  one entry for each internal node and with \<open>A_II \<cdot> V_I = G[I,E] \<cdot> V_E + G[I,GR] \<cdot> V_GR\<close>.
  On the triangle of the scenario, with conductance 1 on the three edges, \<open>V_E = 1\<close> and
  \<open>V_GR = 0\<close>, the matrix \<open>A_II\<close> is \<open>[[2]]\<close>, and with its inverse \<open>[[1/2]]\<close> the solver
  returns the internal voltage \<open>1/2\<close>.
\<close>

theorem solveV_I_solves_nodal_system:
  fixes r :: "'a reservoir_scheme"
  assumes "(case G_arg of None \<Rightarrow> self_G r | Some g \<Rightarrow> Some g) = Some G"
    and "is_mat n n G" and "\<forall>i<n. G ! i ! i = 0"
    and "n_nodes r = n"
    and "\<forall>i\<in>set (self_I r). i < n" and "\<forall>i\<in>set (self_E r). i < n"
    and "\<forall>i\<in>set (self_GR r). i < n"
    and "length V_E = length (self_E r)"
    and "vgr = (case V_GR of None \<Rightarrow> replicate (n_grounded_nodes r) 0 | Some v \<Rightarrow> v)"
    and "length vgr = length (self_GR r)"
    and "A_II = mk (length (self_I r)) (length (self_I r))
                  (\<lambda>a b. admittance G (self_I r ! a) (self_I r ! b))"
    and "linalg_inv A_II = Inr B"
    and "is_mat (length (self_I r)) (length (self_I r)) B"
    and "mat_mul A_II B = identity (length (self_I r))"
  shows "(\<exists>V_I. solveV_I linalg_inv r V_E V_GR G_arg = Inr V_I
            \<and> length V_I = length (self_I r)
            \<and> mat_vec A_II V_I
                = map2 (+)
                    (mat_vec (mk (length (self_I r)) (length (self_E r))
                                (\<lambda>a e. G ! (self_I r ! a) ! (self_E r ! e))) V_E)
                    (mat_vec (mk (length (self_I r)) (length (self_GR r))
                                (\<lambda>a g. G ! (self_I r ! a) ! (self_GR r ! g))) vgr))
       \<and> (\<forall>inv. inv [[2]] = Inr [[1 / 2]] \<longrightarrow>
            solveV_I inv triangle [1] (Some [0]) (Some [[0, 1, 1], [1, 0, 1], [1, 1, 0]])
              = Inr [1 / 2])"
proof (intro conjI allI impI)
  show "\<exists>V_I. solveV_I linalg_inv r V_E V_GR G_arg = Inr V_I
            \<and> length V_I = length (self_I r)
            \<and> mat_vec A_II V_I
                = map2 (+)
                    (mat_vec (mk (length (self_I r)) (length (self_E r))
                                (\<lambda>a e. G ! (self_I r ! a) ! (self_E r ! e))) V_E)
                    (mat_vec (mk (length (self_I r)) (length (self_GR r))
                                (\<lambda>a g. G ! (self_I r ! a) ! (self_GR r ! g))) vgr)"
    using assms by (rule solveV_I_solves)
next
  fix inv :: "matrix \<Rightarrow> error + matrix"
  assume "inv [[2]] = Inr [[1 / 2]]"
  then show "solveV_I inv triangle [1] (Some [0]) (Some [[0, 1, 1], [1, 0, 1], [1, 1, 0]])
               = Inr [1 / 2]"
    by (rule triangle_voltage) simp
qed

theorem solveV_I_solves_nodal_system_witness:
  "MemristiveReservoir_init [[0, 1, 1], [1, 0, 1], [1, 1, 0]] [0] [1] [2] = Inr triangle
   \<and> inv_1x1 [[2]] = Inr [[1 / 2]]
   \<and> mat_mul [[2]] [[1 / 2]] = identity 1
   \<and> (\<exists>V_I. solveV_I inv_1x1 triangle [1] (Some [0]) (Some [[0, 1, 1], [1, 0, 1], [1, 1, 0]])
              = Inr V_I
          \<and> length V_I = 1 \<and> mat_vec [[2]] V_I = [1])
   \<and> solveV_I inv_1x1 triangle [1] (Some [0]) (Some [[0, 1, 1], [1, 0, 1], [1, 1, 0]])
       = Inr [1 / 2]"
proof -
  let ?G = "[[0, 1, 1], [1, 0, 1], [1, 1, 0 :: real]]"
  have G: "is_mat 3 3 ?G"
    by (simp add: is_mat_def)
  have diag: "\<forall>i<3. ?G ! i ! i = 0"
    by (simp add: less_Suc_eq numeral_3_eq_3)
  have vgr: "[0] = (case Some [0] of None \<Rightarrow> replicate (n_grounded_nodes triangle) 0
                                  | Some v \<Rightarrow> v)"
    by simp
  have A: "[[2]] = mk (length (self_I triangle)) (length (self_I triangle))
                     (\<lambda>a b. admittance ?G (self_I triangle ! a) (self_I triangle ! b))"
    by (simp add: triangle_def mk_def admittance_def)
  have inv: "inv_1x1 [[2]] = Inr [[1 / 2]]"
    by (simp add: inv_1x1_def)
  have AB1: "mat_mul [[2]] [[1 / 2]] = identity 1"
    by (simp add: mat_mul_def identity_def mk_def nrows_def ncols_def dotv_def)
  have AB: "mat_mul [[2]] [[1 / 2]] = identity (length (self_I triangle))"
    using AB1 by (simp add: triangle_def)
  have sel: "(case Some ?G of None \<Rightarrow> self_G triangle | Some g \<Rightarrow> Some g) = Some ?G"
    by simp
  have n: "n_nodes triangle = 3"
    and I: "\<forall>i\<in>set (self_I triangle). i < 3"
    and E: "\<forall>i\<in>set (self_E triangle). i < 3"
    and GR: "\<forall>i\<in>set (self_GR triangle). i < 3"
    and VE: "length [1 :: real] = length (self_E triangle)"
    and VGR: "length [0 :: real] = length (self_GR triangle)"
    and B: "is_mat (length (self_I triangle)) (length (self_I triangle)) [[1 / 2 :: real]]"
    by (simp_all add: triangle_def is_mat_def)
  note t = solveV_I_solves_nodal_system [where r = triangle and G_arg = "Some ?G" and G = ?G
      and n = 3 and V_E = "[1]" and V_GR = "Some [0]" and vgr = "[0]" and A_II = "[[2]]"
      and linalg_inv = inv_1x1 and B = "[[1 / 2]]",
      OF sel G diag n I E GR VE vgr VGR A inv B AB]
  have c: "map2 (+)
             (mat_vec (mk (length (self_I triangle)) (length (self_E triangle))
                         (\<lambda>a e. ?G ! (self_I triangle ! a) ! (self_E triangle ! e))) [1])
             (mat_vec (mk (length (self_I triangle)) (length (self_GR triangle))
                         (\<lambda>a g. ?G ! (self_I triangle ! a) ! (self_GR triangle ! g))) [0])
           = [1]"
    by (simp add: triangle_def mat_vec_def mk_def dotv_def)
  have l: "length (self_I triangle) = 1"
    by (simp add: triangle_def)
  note t1 = t [THEN conjunct1, unfolded c, unfolded l]
  note t2 = t [THEN conjunct2, THEN spec, of inv_1x1, THEN mp, OF inv]
  show ?thesis
    using triangle_constructed inv AB1 t1 t2 by (intro conjI)
qed









lemma single_node_constructed:
  "MemristiveReservoir_init [[0]] [0] [] [] = Inr single_node"
  by code_simp


lemma convergence_test_mask_size:
  "convergence_test example_mss [Num (1 / 10 ^ 6)] [[Num 1]] (1 / 10 ^ 5) = Inl MaskError"
  by code_simp


end
